theory Spec2Isabelle
  imports Main "HOL-Library.Sublist"
begin

section \<open>Python strings\<close>

text \<open>
  A Python \<open>str\<close> is modelled as a \<open>string\<close>: a list of code points below 256, one
  \<open>char\<close> per code point. Exceptions are values of the type \<open>error\<close>; a function that
  may raise returns \<open>error + 'a\<close>, with \<open>Inl\<close> for the exception.
\<close>

datatype error =
    ValueError string
  | RegexError string
  | KeyError string
  | OtherError string

definition ascii_lowercase :: string where
  "ascii_lowercase = ''abcdefghijklmnopqrstuvwxyz''"

definition ascii_uppercase :: string where
  "ascii_uppercase = ''ABCDEFGHIJKLMNOPQRSTUVWXYZ''"

definition ascii_letters :: string where
  "ascii_letters = ascii_lowercase @ ascii_uppercase"

definition digits :: string where
  "digits = ''0123456789''"

text \<open>\<open>str.lower\<close> on the code points below 256: the ASCII capitals and the Latin-1
  capitals \<open>0xC0..0xDE\<close> (without the multiplication sign \<open>0xD7\<close>) move up by 32.\<close>

definition lower_char :: "char \<Rightarrow> char" where
  "lower_char c =
     (let n = (of_char c :: nat)
      in if (65 \<le> n \<and> n \<le> 90) \<or> (192 \<le> n \<and> n \<le> 222 \<and> n \<noteq> 215)
         then char_of (n + 32) else c)"

definition lower :: "string \<Rightarrow> string" where
  "lower s = map lower_char s"

text \<open>\<open>s.replace(old, new)\<close>: the occurrences of \<open>old\<close> are replaced from the left,
  without overlap; an empty \<open>old\<close> matches before every character and at the end.\<close>

fun replace_from :: "string \<Rightarrow> string \<Rightarrow> string \<Rightarrow> string" where
  "replace_from old new [] = []"
| "replace_from old new (c # cs) =
     (if prefix old (c # cs)
      then new @ replace_from old new (drop (length old - 1) cs)
      else c # replace_from old new cs)"

definition replace :: "string \<Rightarrow> string \<Rightarrow> string \<Rightarrow> string" where
  "replace old new s =
     (if old = [] then new @ concat (map (\<lambda>c. c # new) s)
      else replace_from old new s)"

text \<open>\<open>s.strip(chars)\<close> removes the characters of \<open>chars\<close> from both ends.\<close>

definition strip_chars :: "string \<Rightarrow> string \<Rightarrow> string" where
  "strip_chars chars s =
     rev (dropWhile (\<lambda>c. c \<in> set chars) (rev (dropWhile (\<lambda>c. c \<in> set chars) s)))"

section \<open>Identifier generation\<close>

text \<open>The slug expression of \<open>generate_slug_and_urls\<close>: lower-case the title, turn
  spaces and underscores into hyphens, keep the characters of
  \<open>ascii_lowercase + digits + '-'\<close>, strip hyphens from both ends.\<close>

definition slug_of :: "string \<Rightarrow> string" where
  "slug_of title =
     strip_chars ''-''
       (filter (\<lambda>c. c \<in> set (ascii_lowercase @ digits @ ''-''))
          (replace ''_'' ''-'' (replace '' '' ''-'' (lower title))))"

text \<open>\<open>random.choices(population, k=k)\<close> picks \<open>k\<close> members of the population, each at
  an index the random source gives; the source is a stream \<open>rng\<close> of naturals, reduced
  modulo the size of the population.\<close>

definition choices :: "(nat \<Rightarrow> nat) \<Rightarrow> 'a list \<Rightarrow> nat \<Rightarrow> 'a list" where
  "choices rng population k = map (\<lambda>i. population ! (rng i mod length population)) [0..<k]"

definition nano_of :: "(nat \<Rightarrow> nat) \<Rightarrow> string" where
  "nano_of rng = choices rng (ascii_letters @ digits @ ''_-'') 10 @ ''_G''"

text \<open>\<open>generate_slug_and_urls\<close> returns the suffix, the composite identifier and the
  two URLs; an empty title raises.\<close>

definition generate_slug_and_urls ::
  "(nat \<Rightarrow> nat) \<Rightarrow> string \<Rightarrow> error + (string \<times> string \<times> string \<times> string)" where
  "generate_slug_and_urls rng title =
     (if title = [] then Inl (ValueError ''Invalid title'')
      else
        let slug = slug_of title;
            nano = nano_of rng;
            slug_nano = slug @ ''_'' @ nano
        in Inr (nano, slug_nano,
                ''https://suvichaar.org/stories/'' @ slug_nano,
                ''https://stories.suvichaar.org/'' @ slug_nano @ ''.html''))"

section \<open>Regular-expression helpers\<close>

text \<open>The class \<open>\s\<close> of \<open>re\<close> on a \<open>str\<close> pattern, and the characters \<open>str.strip()\<close>
  removes, below 256: \<open>0x09..0x0D\<close>, \<open>0x1C..0x20\<close>, \<open>0x85\<close> and \<open>0xA0\<close>.\<close>

definition is_space :: "char \<Rightarrow> bool" where
  "is_space c =
     (let n = (of_char c :: nat)
      in (9 \<le> n \<and> n \<le> 13) \<or> (28 \<le> n \<and> n \<le> 32) \<or> n = 133 \<or> n = 160)"

definition strip :: "string \<Rightarrow> string" where
  "strip s = rev (dropWhile is_space (rev (dropWhile is_space s)))"

text \<open>A literal of a pattern compiled with \<open>re.IGNORECASE\<close> matches at the start of \<open>s\<close>
  when the two agree after lower-casing.\<close>

definition ci_prefix :: "string \<Rightarrow> string \<Rightarrow> bool" where
  "ci_prefix lit s =
     (length lit \<le> length s \<and> map lower_char (take (length lit) s) = map lower_char lit)"

section \<open>Metadata generation\<close>

text \<open>
  The first search of \<open>extract_json_block\<close>, with \<open>re.DOTALL | re.IGNORECASE\<close>:
  \<^verbatim>\<open>```json\s*(\{.*?\})\s*```\<close>.
  \<open>lazy_object acc rest\<close> is the part \<^verbatim>\<open>.*?\}\s*```\<close>: the lazy \<open>.*?\<close> has consumed \<open>acc\<close>
  and tries the closing brace, white space and the fence at every position in turn; it
  returns the text of the group after its opening brace. \<open>fenced_at\<close> matches the pattern
  at the start of a text and \<open>search_fenced\<close> returns group 1 of the leftmost match.
\<close>

fun lazy_object :: "string \<Rightarrow> string \<Rightarrow> string option" where
  "lazy_object acc [] = None"
| "lazy_object acc (c # cs) =
     (if c = CHR ''}'' \<and> prefix ''```'' (dropWhile is_space cs)
      then Some (acc @ [c])
      else lazy_object (acc @ [c]) cs)"

definition fenced_at :: "string \<Rightarrow> string option" where
  "fenced_at s =
     (if prefix ''```'' s \<and> ci_prefix ''json'' (drop 3 s)
      then (case dropWhile is_space (drop 7 s) of
              [] \<Rightarrow> None
            | c # cs \<Rightarrow>
                if c = CHR ''{'' then map_option (\<lambda>g. c # g) (lazy_object [] cs) else None)
      else None)"

fun search_fenced :: "string \<Rightarrow> string option" where
  "search_fenced [] = None"
| "search_fenced (c # cs) =
     (case fenced_at (c # cs) of Some g \<Rightarrow> Some g | None \<Rightarrow> search_fenced cs)"

text \<open>
  The second search, \<^verbatim>\<open>re.search(r"(\{(?:[^{}]|(?1))*\})", text, flags=re.DOTALL)\<close>.
  Python's \<open>re\<close> has no recursive group reference: compiling the pattern raises
  \<open>re.error\<close> (unknown extension \<open>?1\<close> at position 13), whatever the text is.
\<close>

definition search_object :: "string \<Rightarrow> error + string option" where
  "search_object text = Inl (RegexError ''unknown extension ?1 at position 13'')"

definition extract_json_block :: "string \<Rightarrow> error + string" where
  "extract_json_block text =
     (if text = [] then Inl (ValueError ''Empty generation output'')
      else case search_fenced text of
             Some g \<Rightarrow> Inr (strip g)
           | None \<Rightarrow>
               (case search_object text of
                  Inl e \<Rightarrow> Inl e
                | Inr (Some g) \<Rightarrow> Inr (strip g)
                | Inr None \<Rightarrow> Inr (strip text)))"

text \<open>The record \<open>generate_metadata\<close> returns: the description and the two
  comma-joined lists.\<close>

record generated =
  md_meta_description :: string
  meta_keywords_csv :: string
  filter_tags_csv :: string

text \<open>
  \<open>generate_metadata\<close>: one call of the text-generation service, \<open>extract_json_block\<close>
  on its answer, then \<open>json.loads\<close> and the normalisation of the three fields. The
  service (\<open>chat\<close>: title to answer, or the exception of the call) and the parsing with
  normalisation (\<open>parse\<close>: JSON text to record, or the exception raised) are parameters.
\<close>

definition generate_metadata ::
  "(string \<Rightarrow> error + string) \<Rightarrow> (string \<Rightarrow> error + generated) \<Rightarrow> string
   \<Rightarrow> error + generated" where
  "generate_metadata chat parse title =
     (case chat title of
        Inl e \<Rightarrow> Inl e
      | Inr raw \<Rightarrow>
          (case extract_json_block raw of
             Inl e \<Rightarrow> Inl e
           | Inr json_str \<Rightarrow> parse json_str))"

section \<open>What the operator sees and what reaches the outside\<close>

text \<open>One constructor for each message of the form and each call that leaves the
  process, in the order they happen.\<close>

datatype event =
    MetadataRequested string
  | MetadataFailed error
  | MissingFieldsError "string list"
  | SubmittedData string string string string string
  | CanonicalUrlError error
  | NoImageUrl
  | HttpGet string
  | PutObject string string string string
  | ImageUploaded
  | ImageFallback error
  | ReadTemplate string
  | NoStyleBlock
  | NoStoryBlock
  | NoHeadTag
  | NoInsertionPoints
  | HtmlUploaded string
  | DownloadButton string "(string \<times> string) list"
  | ProcessingError error

section \<open>The title field\<close>

text \<open>The four fields of \<open>st.session_state\<close>.\<close>

record session =
  last_title :: string
  state_meta_description :: string
  state_meta_keywords :: string
  generated_filter_tags :: string

text \<open>
  The block that runs when the script sees the title field: if the stripped title is not
  empty and the title differs from \<open>last_title\<close>, metadata is generated for the stripped
  title; the three fields are stored when it returns, a warning is shown when it raises,
  and \<open>last_title\<close> is set in both cases. \<open>gen\<close> is \<open>generate_metadata\<close> with its service.
\<close>

definition title_entered ::
  "(string \<Rightarrow> error + generated) \<Rightarrow> string \<Rightarrow> session \<Rightarrow> event list \<times> session" where
  "title_entered gen story_title st =
     (if strip story_title \<noteq> [] \<and> story_title \<noteq> last_title st
      then (case gen (strip story_title) of
              Inr md \<Rightarrow>
                ([MetadataRequested (strip story_title)],
                 st\<lparr>state_meta_description := md_meta_description md,
                    state_meta_keywords := meta_keywords_csv md,
                    generated_filter_tags := filter_tags_csv md,
                    last_title := story_title\<rparr>)
            | Inl e \<Rightarrow>
                ([MetadataRequested (strip story_title), MetadataFailed e],
                 st\<lparr>last_title := story_title\<rparr>))
      else ([], st))"

section \<open>Categories\<close>

text \<open>The options of the category select box and the dictionary \<open>category_mapping\<close>, in
  the order of the source. \<open>d[k]\<close> raises \<open>KeyError\<close> for a key the dictionary lacks.\<close>

definition category_options :: "string list" where
  "category_options =
     [''Art'', ''Travel'', ''Entertainment'', ''Literature'', ''Books'', ''Sports'',
      ''History'', ''Culture'', ''Wildlife'', ''Spiritual'', ''Food'']"

definition category_mapping :: "(string \<times> int) list" where
  "category_mapping =
     [(''Art'', 1), (''Travel'', 2), (''Entertainment'', 3), (''Literature'', 4),
      (''Books'', 5), (''Sports'', 6), (''History'', 7), (''Culture'', 8),
      (''Wildlife'', 9), (''Spiritual'', 10), (''Food'', 11)]"

definition getitem :: "(string \<times> 'v) list \<Rightarrow> string \<Rightarrow> error + 'v" where
  "getitem d k = (case map_of d k of None \<Rightarrow> Inl (KeyError k) | Some v \<Rightarrow> Inr v)"

section \<open>Cleaning brace-wrapped URLs\<close>

text \<open>
  \<^verbatim>\<open>re.sub(r'href="\{(https://[^}]+)\}"', r'href="\1"', html)\<close>, and the same for \<open>src\<close>.
  \<open>braced_at attr s\<close> matches the pattern at the start of \<open>s\<close>: the attribute name, \<open>="{\<close>,
  \<open>https://\<close>, the longest run of characters other than \<open>}\<close> (at least one), then \<open>}"\<close>;
  it returns group 1 and the length of the match. \<open>sub_braced\<close> replaces the matches from
  the left, without overlap.
\<close>

definition braced_at :: "string \<Rightarrow> string \<Rightarrow> (string \<times> nat) option" where
  "braced_at attr s =
     (let lit = attr @ ''=\"{'';
          rest = drop (length lit + 8) s;
          run = takeWhile (\<lambda>c. c \<noteq> CHR ''}'') rest
      in if prefix (lit @ ''https://'') s \<and> run \<noteq> []
            \<and> prefix ''}\"'' (drop (length run) rest)
         then Some (''https://'' @ run, length lit + 8 + length run + 2)
         else None)"

fun sub_braced :: "string \<Rightarrow> string \<Rightarrow> string" where
  "sub_braced attr [] = []"
| "sub_braced attr (c # cs) =
     (case braced_at attr (c # cs) of
        Some (g, n) \<Rightarrow> attr @ ''=\"'' @ g @ ''\"'' @ sub_braced attr (drop (n - 1) cs)
      | None \<Rightarrow> c # sub_braced attr cs)"

definition cleanup :: "string \<Rightarrow> string" where
  "cleanup html = sub_braced ''src'' (sub_braced ''href'' html)"

section \<open>Fragments of the uploaded HTML\<close>

text \<open>\<open>s.find(sub)\<close> and \<open>s.rfind(sub)\<close>: the lowest and the highest index where \<open>sub\<close>
  occurs, or \<open>-1\<close>.\<close>

definition occurs_at :: "string \<Rightarrow> string \<Rightarrow> nat \<Rightarrow> bool" where
  "occurs_at s sub i = (i \<le> length s \<and> prefix sub (drop i s))"

definition str_find :: "string \<Rightarrow> string \<Rightarrow> int" where
  "str_find s sub =
     (case List.find (occurs_at s sub) [0..<Suc (length s)] of
        None \<Rightarrow> - 1 | Some i \<Rightarrow> int i)"

definition str_rfind :: "string \<Rightarrow> string \<Rightarrow> int" where
  "str_rfind s sub =
     (case List.find (occurs_at s sub) (rev [0..<Suc (length s)]) of
        None \<Rightarrow> - 1 | Some i \<Rightarrow> int i)"

text \<open>\<open>s[i:j]\<close>: a negative bound counts from the end, both bounds are clamped to the
  string, and the slice is empty when the upper bound is not above the lower one (the
  subtraction on \<open>nat\<close> is then 0).\<close>

definition clamp_index :: "nat \<Rightarrow> int \<Rightarrow> nat" where
  "clamp_index n i = (if i < 0 then nat (max 0 (int n + i)) else min n (nat i))"

definition slice :: "string \<Rightarrow> int \<Rightarrow> int \<Rightarrow> string" where
  "slice s i j =
     (let a = clamp_index (length s) i; b = clamp_index (length s) j
      in take (b - a) (drop a s))"

text \<open>The story pages: from the first \<open><amp-story-page\<close> to the end of the last
  \<open></amp-story-page>\<close>; a warning when one of the two is not found.\<close>

definition extract_amp_story :: "string \<Rightarrow> string \<times> event list" where
  "extract_amp_story raw_html =
     (let start = str_find raw_html ''<amp-story-page'';
          end = str_rfind raw_html ''</amp-story-page>''
      in if start \<noteq> - 1 \<and> end \<noteq> - 1
         then (slice raw_html start (end + int (length ''</amp-story-page>'')), [])
         else ([], [NoStoryBlock]))"

text \<open>
  The style block: \<^verbatim>\<open>re.search(r"(<style\s+amp-custom[^>]*>.*?</style>)", raw_html,\<close>
  \<^verbatim>\<open>re.DOTALL | re.IGNORECASE)\<close>. \<open>until_close\<close> is the lazy \<^verbatim>\<open>.*?</style>\<close>; \<open>style_at\<close>
  matches at the start of a text and returns the matched text.
\<close>

fun until_close :: "string \<Rightarrow> string \<Rightarrow> string option" where
  "until_close acc [] = None"
| "until_close acc (c # cs) =
     (if ci_prefix ''</style>'' (c # cs) then Some (acc @ take 8 (c # cs))
      else until_close (acc @ [c]) cs)"

definition style_at :: "string \<Rightarrow> string option" where
  "style_at s =
     (let r1 = drop 6 s;
          r2 = dropWhile is_space r1;
          r3 = drop 10 r2;
          r4 = dropWhile (\<lambda>c. c \<noteq> CHR ''>'') r3
      in if ci_prefix ''<style'' s \<and> length r2 < length r1 \<and> ci_prefix ''amp-custom'' r2
         then (case r4 of
                 [] \<Rightarrow> None
               | g # r5 \<Rightarrow>
                   map_option (\<lambda>body. take (length s - length r5) s @ body)
                     (until_close [] r5))
         else None)"

fun search_style :: "string \<Rightarrow> string option" where
  "search_style [] = None"
| "search_style (c # cs) =
     (case style_at (c # cs) of Some g \<Rightarrow> Some g | None \<Rightarrow> search_style cs)"

definition extract_style :: "string \<Rightarrow> string \<times> event list" where
  "extract_style raw_html =
     (case search_style raw_html of
        Some g \<Rightarrow> (g, [])
      | None \<Rightarrow> ([], [NoStyleBlock]))"

section \<open>Splicing the fragments into the template\<close>

text \<open>The style block goes before the first \<open></head>\<close> of the lower-cased template.\<close>

definition insert_style :: "string \<Rightarrow> string \<Rightarrow> string \<times> event list" where
  "insert_style html_template extracted_style =
     (if extracted_style \<noteq> []
      then (let head_close_pos = str_find (lower html_template) ''</head>''
            in if head_close_pos \<noteq> - 1
               then (slice html_template 0 head_close_pos @ [CHR 0x0A] @ extracted_style
                       @ [CHR 0x0A] @ drop (nat head_close_pos) html_template, [])
               else (html_template, [NoHeadTag]))
      else (html_template, []))"

text \<open>
  The class \<open>\w\<close> below 256, for the \<open>\b\<close> of \<^verbatim>\<open><amp-story\b[^>]*>\<close>.
  \<open>amp_story_at\<close> matches that pattern at the start of a text and returns the length of
  the match; \<open>search_amp_story\<close> returns the end of the leftmost match.
\<close>

definition is_word :: "char \<Rightarrow> bool" where
  "is_word c =
     (let n = (of_char c :: nat)
      in (48 \<le> n \<and> n \<le> 57) \<or> (65 \<le> n \<and> n \<le> 90) \<or> n = 95 \<or> (97 \<le> n \<and> n \<le> 122)
         \<or> n = 170 \<or> n = 178 \<or> n = 179 \<or> n = 181 \<or> n = 185 \<or> n = 186
         \<or> (188 \<le> n \<and> n \<le> 190) \<or> (192 \<le> n \<and> n \<le> 214) \<or> (216 \<le> n \<and> n \<le> 246)
         \<or> 248 \<le> n)"

definition amp_story_at :: "string \<Rightarrow> nat option" where
  "amp_story_at s =
     (if prefix ''<amp-story'' s
      then (case drop 10 s of
              [] \<Rightarrow> None
            | c # r \<Rightarrow>
                if is_word c then None
                else (case dropWhile (\<lambda>x. x \<noteq> CHR ''>'') (c # r) of
                        [] \<Rightarrow> None
                      | g # r' \<Rightarrow> Some (length s - length r')))
      else None)"

fun search_amp_story :: "string \<Rightarrow> nat \<Rightarrow> nat option" where
  "search_amp_story [] i = None"
| "search_amp_story (c # cs) i =
     (case amp_story_at (c # cs) of
        Some n \<Rightarrow> Some (i + n)
      | None \<Rightarrow> search_amp_story cs (Suc i))"

definition analytics_tag :: string where
  "analytics_tag = ''<amp-story-auto-analytics gtag-id=\"G-2D5GXVRK1E\" class=\"i-amphtml-layout-container\" i-amphtml-layout=\"container\"></amp-story-auto-analytics>''"

definition contains :: "string \<Rightarrow> string \<Rightarrow> bool" where
  "contains sub s = (str_find s sub \<noteq> - 1)"

definition insert_amp_story :: "string \<Rightarrow> string \<Rightarrow> string \<times> event list" where
  "insert_amp_story html_template extracted_amp_story =
     (if extracted_amp_story \<noteq> []
      then (case search_amp_story html_template 0 of
              Some insert_pos \<Rightarrow>
                if contains analytics_tag html_template
                then (take insert_pos html_template @ [CHR 0x0A, CHR 0x0A]
                        @ extracted_amp_story @ [CHR 0x0A, CHR 0x0A]
                        @ drop insert_pos html_template, [])
                else (html_template, [NoInsertionPoints])
            | None \<Rightarrow> (html_template, [NoInsertionPoints]))
      else (html_template, []))"

section \<open>The submit handler\<close>

text \<open>The values of the form widgets when Submit is pressed. \<open>html_file\<close> is \<open>None\<close> when
  nothing was uploaded, and otherwise what \<open>html_file.read().decode("utf-8")\<close> gives:
  the text, or the exception of the decoding.\<close>

record form =
  story_title :: string
  meta_description :: string
  meta_keywords :: string
  content_type :: string
  language :: string
  image_url :: string
  html_file :: "(error + string) option"
  categories :: string
  tag_input :: string
  use_custom_cover :: string
  custom_cover_image_url :: string

text \<open>
  What the handler reads from outside the script: the random source, the library calls
  whose results do not depend on the script (\<open>urlparse(u).path\<close>, \<open>uuid4().hex\<close>, the two
  \<open>datetime.now\<close> calls, \<open>random.choice\<close>, \<open>urlsafe_b64encode(json.dumps(descriptor))\<close> for a
  bucket, key, width and height, \<open>json.dumps(metadata_dict, indent=4)\<close>), the network
  (\<open>requests.get\<close> with \<open>raise_for_status\<close>: body and Content-Type header, or the
  exception; \<open>put_object\<close>: the exception, if one is raised), the template file and the
  configuration secrets.
\<close>

datatype jvalue = JString string | JInt int | JList "string list"

record env =
  rng :: "nat \<Rightarrow> nat"
  urlparse_path :: "string \<Rightarrow> error + string"
  requests_get :: "string \<Rightarrow> error + string \<times> string option"
  uuid4_hex :: string
  put_object :: "string \<Rightarrow> string \<Rightarrow> string \<Rightarrow> string \<Rightarrow> error option"
  read_template :: "error + string"
  random_choice :: nat
  utc_now :: "nat \<Rightarrow> string"
  b64_descriptor :: "string \<Rightarrow> string \<Rightarrow> nat \<Rightarrow> nat \<Rightarrow> string"
  json_dumps :: "(string \<times> jvalue) list \<Rightarrow> string"
  bucket_name :: string
  s3_prefix :: string
  cdn_base_url :: string

text \<open>The validation block: the labels of the fields that are blank, in the order of
  the checks.\<close>

definition missing_fields :: "form \<Rightarrow> string list" where
  "missing_fields f =
     (if strip (story_title f) = [] then [''Story Title''] else [])
     @ (if strip (meta_description f) = [] then [''Meta Description''] else [])
     @ (if strip (meta_keywords f) = [] then [''Meta Keywords''] else [])
     @ (if strip (content_type f) = [] then [''Content Type''] else [])
     @ (if strip (language f) = [] then [''Language''] else [])
     @ (if strip (image_url f) = [] then [''Image URL''] else [])
     @ (if strip (tag_input f) = [] then [''Filter Tags''] else [])
     @ (if strip (categories f) = [] then [''Category''] else [])
     @ (if html_file f = None then [''Raw HTML File''] else [])"

definition validation :: "form \<Rightarrow> event list" where
  "validation f =
     (if missing_fields f \<noteq> [] then [MissingFieldsError (missing_fields f)]
      else [SubmittedData (story_title f) (meta_description f) (meta_keywords f)
              (content_type f) (language f)])"

text \<open>The identifier bundle; all five values are empty when
  \<open>generate_slug_and_urls\<close> raises.\<close>

record ident =
  nano :: string
  slug_nano :: string
  canurl :: string
  canurl1 :: string
  page_title :: string

definition ident_phase :: "env \<Rightarrow> form \<Rightarrow> event list \<times> ident" where
  "ident_phase e f =
     (case generate_slug_and_urls (rng e) (story_title f) of
        Inr (n, sn, c, c1) \<Rightarrow>
          ([], \<lparr>nano = n, slug_nano = sn, canurl = c, canurl1 = c1,
                page_title = story_title f @ '' | Suvichaar''\<rparr>)
      | Inl err \<Rightarrow>
          ([CanonicalUrlError err],
           \<lparr>nano = [], slug_nano = [], canurl = [], canurl1 = [], page_title = []\<rparr>))"

text \<open>\<open>os.path.basename\<close>, and the extension \<open>os.path.splitext\<close> returns: the text from
  the last dot, if that dot is after the last slash and a character other than a dot
  stands between them.\<close>

definition basename :: "string \<Rightarrow> string" where
  "basename p = rev (takeWhile (\<lambda>c. c \<noteq> CHR ''/'') (rev p))"

definition splitext_ext :: "string \<Rightarrow> string" where
  "splitext_ext p =
     (let sepIndex = str_rfind p ''/''; dotIndex = str_rfind p ''.''
      in if sepIndex < dotIndex
            \<and> filter (\<lambda>c. c \<noteq> CHR ''.'') (slice p (sepIndex + 1) dotIndex) \<noteq> []
         then drop (nat dotIndex) p else [])"

definition image_ext :: "string \<Rightarrow> string" where
  "image_ext path =
     (let ext = lower (splitext_ext (basename path))
      in if ext \<in> set [''.jpg'', ''.jpeg'', ''.png'', ''.gif''] then ext else ''.jpg'')"

text \<open>The prefix of the image keys ends with one slash (set when the script loads).\<close>

definition normal_prefix :: "string \<Rightarrow> string" where
  "normal_prefix p = (if p \<noteq> [] \<and> \<not> suffix ''/'' p then p @ ''/'' else p)"

text \<open>Fetching the image and storing a copy; every failure is caught and reported.\<close>

definition fetch_image :: "env \<Rightarrow> string \<Rightarrow> string \<Rightarrow> event list" where
  "fetch_image e url ext =
     (case requests_get e url of
        Inl err \<Rightarrow> [HttpGet url, ImageFallback err]
      | Inr (content, header) \<Rightarrow>
          (let s3_key = normal_prefix (s3_prefix e) @ uuid4_hex e @ ext;
               ctype = (case header of None \<Rightarrow> ''image/jpeg'' | Some h \<Rightarrow> h);
               put = PutObject (bucket_name e) s3_key content ctype
           in case put_object e (bucket_name e) s3_key content ctype of
                Some err \<Rightarrow> [HttpGet url, put, ImageFallback err]
              | None \<Rightarrow> [HttpGet url, put, ImageUploaded]))"

text \<open>The image block. \<open>urlparse\<close> is called outside every \<open>try\<close>: its exception ends the
  run. The variables \<open>uploaded_url\<close> and \<open>key_path\<close>, which nothing reads afterwards,
  are left out.\<close>

definition image_phase :: "env \<Rightarrow> form \<Rightarrow> error + event list" where
  "image_phase e f =
     (if image_url f \<noteq> []
      then (case urlparse_path e (image_url f) of
              Inl err \<Rightarrow> Inl err
            | Inr path \<Rightarrow>
                Inr (if prefix ''https://stories.suvichaar.org/'' (image_url f) then []
                     else fetch_image e (image_url f) (image_ext path)))
      else Inr [NoImageUrl])"

text \<open>\<open>s.split(sep)\<close> for a separator of one character.\<close>

fun split_on :: "char \<Rightarrow> string \<Rightarrow> string list" where
  "split_on sep [] = [[]]"
| "split_on sep (c # cs) =
     (if c = sep then [] # split_on sep cs
      else (case split_on sep cs of [] \<Rightarrow> [[c]] | x # xs \<Rightarrow> (c # x) # xs))"

definition filter_tags_list :: "string \<Rightarrow> string list" where
  "filter_tags_list tags = filter (\<lambda>t. t \<noteq> []) (map strip (split_on CHR '','' tags))"

definition user_mapping :: "(string \<times> string) list" where
  "user_mapping =
     [(''Mayank'', ''https://www.instagram.com/iamkrmayank?igsh=eW82NW1qbjh4OXY2&utm_source=qr''),
      (''Onip'', ''https://www.instagram.com/onip.mathur/profilecard/?igsh=MW5zMm5qMXhybGNmdA==''),
      (''Naman'', ''https://njnaman.in/'')]"

text \<open>The twelve literal substitutions, in the order of the source.\<close>

definition fill_placeholders :: "env \<Rightarrow> form \<Rightarrow> ident \<Rightarrow> string \<Rightarrow> string" where
  "fill_placeholders e f idn html_template =
     (let selected_user = user_mapping ! (random_choice e mod length user_mapping)
      in replace ''{{canurl1}}'' (canurl1 idn)
        (replace ''{{canurl}}'' (canurl idn)
        (replace ''{{pagetitle}}'' (page_title idn)
        (replace ''{{lang}}'' (language f)
        (replace ''{{contenttype}}'' (content_type f)
        (replace ''{{metakeywords}}'' (meta_keywords f)
        (replace ''{{metadescription}}'' (meta_description f)
        (replace ''{{storytitle}}'' (story_title f)
        (replace ''{{modifiedtime}}'' (utc_now e 1)
        (replace ''{{publishedtime}}'' (utc_now e 0)
        (replace ''{{userprofileurl}}'' (snd selected_user)
        (replace ''{{user}}'' (fst selected_user) html_template))))))))))))"

text \<open>The resized variants, for an image on the media host. The token replaced for a
  preset is the label in single braces, \<open>f"{{{label}}}"\<close>.\<close>

definition cdn_prefix_media :: string where
  "cdn_prefix_media = ''https://media.suvichaar.org/''"

definition resize_presets :: "(string \<times> nat \<times> nat) list" where
  "resize_presets = [(''potraitcoverurl'', 640, 853), (''msthumbnailcoverurl'', 300, 300)]"

definition fill_images :: "env \<Rightarrow> form \<Rightarrow> string \<Rightarrow> error + string" where
  "fill_images e f html_template =
     (if prefix ''http://media.suvichaar.org'' (image_url f)
         \<or> prefix ''https://media.suvichaar.org'' (image_url f)
      then (case urlparse_path e (image_url f) of
              Inl err \<Rightarrow> Inl err
            | Inr path \<Rightarrow>
                (let cdn_key_path = dropWhile (\<lambda>c. c = CHR ''/'') path
                 in Inr (fold (\<lambda>(label, width, height) h.
                            replace (''{'' @ label @ ''}'')
                              (cdn_prefix_media
                                 @ b64_descriptor e (bucket_name e) cdn_key_path width height) h)
                          resize_presets
                          (replace ''{{image0}}'' (image_url f) html_template))))
      else Inr html_template)"

text \<open>The two fragments of the uploaded file, with the messages of the extraction.\<close>

definition extract_fragments ::
  "(error + string) option \<Rightarrow> error + string \<times> string \<times> event list" where
  "extract_fragments file =
     (case file of
        None \<Rightarrow> Inr ([], [], [])
      | Some (Inl err) \<Rightarrow> Inl err
      | Some (Inr raw_html) \<Rightarrow>
          Inr (fst (extract_style raw_html), fst (extract_amp_story raw_html),
               snd (extract_style raw_html) @ snd (extract_amp_story raw_html)))"

definition cover_image_url :: "form \<Rightarrow> string" where
  "cover_image_url f =
     (if use_custom_cover f = ''Yes'' then custom_cover_image_url f else image_url f)"

definition metadata_dict ::
  "form \<Rightarrow> ident \<Rightarrow> int \<Rightarrow> (string \<times> jvalue) list" where
  "metadata_dict f idn filternumber =
     [(''story_title'', JString (story_title f)),
      (''categories'', JInt filternumber),
      (''filterTags'', JList (filter_tags_list (tag_input f))),
      (''story_uid'', JString (nano idn)),
      (''story_link'', JString (canurl idn)),
      (''storyhtmlurl'', JString (canurl1 idn)),
      (''urlslug'', JString (slug_nano idn)),
      (''cover_image_link'', JString (cover_image_url f)),
      (''publisher_id'', JInt 1),
      (''story_logo_link'', JString ''https://media.suvichaar.org/filters:resize/96x96/media/brandasset/suvichaariconblack.png''),
      (''keywords'', JString (meta_keywords f)),
      (''metadescription'', JString (meta_description f)),
      (''lang'', JString (language f))]"

text \<open>What a run that reaches the download button has produced.\<close>

record published =
  html :: string
  metadata :: "(string \<times> jvalue) list"
  archive :: "(string \<times> string) list"

datatype outcome = Crashed error | Failed error | Published published

text \<open>Storing the document and building the archive: the two \<open>writestr\<close> calls give the
  entries of the archive, name and content.\<close>

definition publish ::
  "env \<Rightarrow> form \<Rightarrow> ident \<Rightarrow> string \<Rightarrow> (string \<times> jvalue) list \<Rightarrow> event list \<times> outcome" where
  "publish e f idn html_template md =
     (let s3_key = slug_nano idn @ ''.html'';
          put = PutObject ''suvichaarstories'' s3_key html_template ''text/html''
      in case put_object e ''suvichaarstories'' s3_key html_template ''text/html'' of
           Some err \<Rightarrow> ([put, ProcessingError err], Failed err)
         | None \<Rightarrow>
             (let entries = [(slug_nano idn @ ''.html'', html_template),
                             (slug_nano idn @ ''_metadata.json'', json_dumps e md)]
              in ([put, HtmlUploaded (''https://suvichaar.org/stories/'' @ slug_nano idn),
                   DownloadButton (story_title f @ ''.zip'') entries],
                  Published \<lparr>html = html_template, metadata = md, archive = entries\<rparr>)))"

text \<open>The last \<open>try\<close> block: every exception inside it is reported and ends the
  processing of the submission.\<close>

definition splice_fragments :: "string \<Rightarrow> string \<Rightarrow> string \<Rightarrow> string \<times> event list" where
  "splice_fragments html_template extracted_style extracted_amp_story =
     (let s = insert_style html_template extracted_style;
          a = insert_amp_story (fst s) extracted_amp_story
      in (fst a, snd s @ snd a))"

definition compose_phase :: "env \<Rightarrow> form \<Rightarrow> ident \<Rightarrow> event list \<times> outcome" where
  "compose_phase e f idn =
     (let rd = ReadTemplate ''templates/masterregex.html''
      in case read_template e of
           Inl err \<Rightarrow> ([rd, ProcessingError err], Failed err)
         | Inr html_template \<Rightarrow>
        (case getitem category_mapping (categories f) of
           Inl err \<Rightarrow> ([rd, ProcessingError err], Failed err)
         | Inr filternumber \<Rightarrow>
        (case fill_images e f (fill_placeholders e f idn html_template) of
           Inl err \<Rightarrow> ([rd, ProcessingError err], Failed err)
         | Inr filled \<Rightarrow>
        (case extract_fragments (html_file f) of
           Inl err \<Rightarrow> ([rd, ProcessingError err], Failed err)
         | Inr (extracted_style, extracted_amp_story, evs) \<Rightarrow>
             (let sp = splice_fragments (cleanup filled) extracted_style extracted_amp_story;
                  pb = publish e f idn (fst sp) (metadata_dict f idn filternumber)
              in (rd # evs @ snd sp @ fst pb, snd pb))))))"

text \<open>What pressing Submit does: the validation block, then, whatever the validation
  found, the identifiers, the image block and the last \<open>try\<close> block.\<close>

definition on_submit :: "env \<Rightarrow> form \<Rightarrow> event list \<times> outcome" where
  "on_submit e f =
     (let idp = ident_phase e f
      in case image_phase e f of
           Inl err \<Rightarrow> (validation f @ fst idp, Crashed err)
         | Inr img \<Rightarrow>
             (let cp = compose_phase e f (snd idp)
              in (validation f @ fst idp @ img @ fst cp, snd cp)))"

section \<open>Properties of the slug\<close>

lemma replace_absent: "a \<notin> set s \<Longrightarrow> replace [a] [b] s = s"
  by (induction s) (auto simp: replace_def)

lemma strip_chars_prefix: "prefix (strip_chars cs s) (dropWhile (\<lambda>c. c \<in> set cs) s)"
proof -
  let ?P = "\<lambda>c. c \<in> set cs"
  let ?d = "dropWhile ?P s"
  have "?d = rev (dropWhile ?P (rev ?d)) @ rev (takeWhile ?P (rev ?d))"
    by (metis rev_append rev_rev_ident takeWhile_dropWhile_id)
  then have "?d = strip_chars cs s @ rev (takeWhile ?P (rev ?d))"
    by (simp add: strip_chars_def)
  then show ?thesis by (rule prefixI)
qed

lemma strip_chars_subset: "set (strip_chars cs s) \<subseteq> set s"
  using strip_chars_prefix [of cs s] set_mono_prefix set_dropWhileD by fastforce

lemma strip_chars_no_prefix: "c \<in> set cs \<Longrightarrow> \<not> prefix [c] (strip_chars cs s)"
proof
  assume c: "c \<in> set cs" and p: "prefix [c] (strip_chars cs s)"
  from p strip_chars_prefix [of cs s] have "prefix [c] (dropWhile (\<lambda>c. c \<in> set cs) s)"
    using prefix_order.trans by blast
  then obtain r where r: "dropWhile (\<lambda>c. c \<in> set cs) s = c # r" by (auto simp: prefix_def)
  then have "\<not> (c \<in> set cs)" using hd_dropWhile [of "\<lambda>c. c \<in> set cs" s] by simp
  with c show False by simp
qed

lemma strip_chars_no_suffix: "c \<in> set cs \<Longrightarrow> \<not> suffix [c] (strip_chars cs s)"
proof
  assume c: "c \<in> set cs" and p: "suffix [c] (strip_chars cs s)"
  let ?P = "\<lambda>c. c \<in> set cs"
  let ?e = "dropWhile ?P (rev (dropWhile ?P s))"
  from p obtain r where "strip_chars cs s = r @ [c]" by (auto simp: suffix_def)
  then have "rev ?e = r @ [c]" by (simp add: strip_chars_def)
  then have "rev (rev ?e) = rev (r @ [c])" by simp
  then have e: "?e = c # rev r" by simp
  then have "\<not> ?P c" using hd_dropWhile [of ?P "rev (dropWhile ?P s)"] by simp
  with c show False by simp
qed

lemma strip_chars_id:
  assumes "\<not> prefix [c] s" "\<not> suffix [c] s"
  shows "strip_chars [c] s = s"
proof (cases s)
  case Nil
  then show ?thesis by (simp add: strip_chars_def)
next
  case (Cons a r)
  with assms(1) have a: "a \<noteq> c" by auto
  then have d: "dropWhile (\<lambda>x. x \<in> set [c]) s = s" using Cons by simp
  have "s \<noteq> []" using Cons by simp
  then have "s = butlast s @ [last s]" by simp
  with assms(2) have "last s \<noteq> c" by (metis suffixI)
  then have "dropWhile (\<lambda>x. x \<in> set [c]) (rev s) = rev s"
    using \<open>s \<noteq> []\<close> by (cases "rev s") (auto simp: last_rev[symmetric])
  with d show ?thesis by (simp add: strip_chars_def)
qed

lemma lower_char_allowed:
  "c \<in> set (ascii_lowercase @ digits @ ''-'') \<Longrightarrow> lower_char c = c"
  by (auto simp: ascii_lowercase_def digits_def lower_char_def)

lemma slug_of_charset: "set (slug_of title) \<subseteq> set (ascii_lowercase @ digits @ ''-'')"
  unfolding slug_of_def using strip_chars_subset by fastforce

lemma slug_of_fixed:
  assumes "set s \<subseteq> set (ascii_lowercase @ digits @ ''-'')"
    and "\<not> prefix ''-'' s" and "\<not> suffix ''-'' s"
  shows "slug_of s = s"
proof -
  have l: "lower s = s" unfolding lower_def using assms(1) lower_char_allowed
    by (simp add: map_idI subset_iff)
  have "CHR '' '' \<notin> set (ascii_lowercase @ digits @ ''-'')"
    "CHR ''_'' \<notin> set (ascii_lowercase @ digits @ ''-'')"
    by (simp_all add: ascii_lowercase_def digits_def)
  with assms(1) have n: "CHR '' '' \<notin> set s" "CHR ''_'' \<notin> set s" by auto
  have r1: "replace '' '' ''-'' s = s" using n(1) by (rule replace_absent)
  have r2: "replace ''_'' ''-'' s = s" using n(2) by (rule replace_absent)
  have f: "filter (\<lambda>c. c \<in> set (ascii_lowercase @ digits @ ''-'')) s = s"
    using assms(1) by (simp add: subset_iff)
  show ?thesis unfolding slug_of_def l r1 r2 f using assms(2,3) by (rule strip_chars_id)
qed

text \<open>
  Claim C4. For a title made of letters, digits, spaces, underscores and hyphens, the slug
  contains only the characters a-z, 0-9 and the hyphen, neither starts nor ends with a
  hyphen, and normalising the slug again returns it unchanged.
\<close>

theorem slug_normalised:
  assumes "set title \<subseteq> set (ascii_letters @ digits @ '' _-'')"
  shows "set (slug_of title) \<subseteq> set (ascii_lowercase @ digits @ ''-'')
       \<and> \<not> prefix ''-'' (slug_of title) \<and> \<not> suffix ''-'' (slug_of title)
       \<and> slug_of (slug_of title) = slug_of title"
proof -
  have p: "\<not> prefix ''-'' (slug_of title)" unfolding slug_of_def
    by (rule strip_chars_no_prefix) simp
  have s: "\<not> suffix ''-'' (slug_of title)" unfolding slug_of_def
    by (rule strip_chars_no_suffix) simp
  from slug_of_charset p s slug_of_fixed [OF slug_of_charset p s] show ?thesis by simp
qed

theorem slug_normalised_witness:
  "set ''Test Story_1-a'' \<subseteq> set (ascii_letters @ digits @ '' _-'')
   \<and> slug_of ''Test Story_1-a'' = ''test-story-1-a''
   \<and> slug_of (slug_of ''Test Story_1-a'') = slug_of ''Test Story_1-a''"
proof -
  have h: "set ''Test Story_1-a'' \<subseteq> set (ascii_letters @ digits @ '' _-'')"
    by code_simp
  have v: "slug_of ''Test Story_1-a'' = ''test-story-1-a''"
    by code_simp
  from h v slug_normalised [OF h] show ?thesis by simp
qed

section \<open>Properties of the identifier bundle\<close>

lemma choices_length: "length (choices r population k) = k"
  by (simp add: choices_def)

lemma choices_subset:
  "population \<noteq> [] \<Longrightarrow> set (choices r population k) \<subseteq> set population"
  by (auto simp: choices_def)

text \<open>
  Claim C3, as amended. For every non-empty title \<open>generate_slug_and_urls\<close> returns; the
  suffix has length 12: ten characters drawn from the letters, digits, underscore and
  hyphen, followed by the two-character marker \<open>_G\<close>; the composite identifier is the
  slug, an underscore and the suffix.
\<close>

theorem suffix_and_composite:
  assumes "title \<noteq> []"
  shows "generate_slug_and_urls r title =
           Inr (nano_of r, slug_of title @ ''_'' @ nano_of r,
                ''https://suvichaar.org/stories/'' @ slug_of title @ ''_'' @ nano_of r,
                ''https://stories.suvichaar.org/'' @ slug_of title @ ''_'' @ nano_of r @ ''.html'')
       \<and> length (nano_of r) = 12
       \<and> set (take 10 (nano_of r)) \<subseteq> set (ascii_letters @ digits @ ''_-'')
       \<and> drop 10 (nano_of r) = ''_G''"
proof -
  have ne: "ascii_letters @ digits @ ''_-'' \<noteq> []" by simp
  have t: "take 10 (nano_of r) = choices r (ascii_letters @ digits @ ''_-'') 10"
    by (simp add: nano_of_def choices_length)
  have d: "drop 10 (nano_of r) = ''_G''"
    by (simp add: nano_of_def choices_length)
  have l: "length (nano_of r) = 12"
    by (simp add: nano_of_def choices_length)
  have g: "generate_slug_and_urls r title =
           Inr (nano_of r, slug_of title @ ''_'' @ nano_of r,
                ''https://suvichaar.org/stories/'' @ slug_of title @ ''_'' @ nano_of r,
                ''https://stories.suvichaar.org/'' @ slug_of title @ ''_'' @ nano_of r @ ''.html'')"
    using assms by (simp add: generate_slug_and_urls_def Let_def)
  from g l d t choices_subset [OF ne, of r 10] show ?thesis by simp
qed

theorem suffix_and_composite_witness:
  "''Test Story'' \<noteq> [] \<and> length (nano_of id) = 12 \<and> drop 10 (nano_of id) = ''_G''"
  using suffix_and_composite [of "''Test Story''" id] by simp

text \<open>
  Claim C3 as stated gives the suffix 11 characters. With the random source that draws
  the indices 0, 1, 2, ... the title \<open>Test Story\<close> gets the suffix
  \<open>abcdefghij_G\<close>, of 12 characters.
\<close>

theorem suffix_length_counterexample:
  "generate_slug_and_urls id ''Test Story'' =
     Inr (''abcdefghij_G'', ''test-story_abcdefghij_G'',
          ''https://suvichaar.org/stories/test-story_abcdefghij_G'',
          ''https://stories.suvichaar.org/test-story_abcdefghij_G.html'')
   \<and> length (fst (projr (generate_slug_and_urls id ''Test Story''))) \<noteq> 11"
  by code_simp

section \<open>Properties of the metadata generation\<close>

lemma fenced_text_returns:
  \<open>extract_json_block (''```json'' @ [CHR 0x0A] @ ''{"a": 1}'' @ [CHR 0x0A] @ ''```'')
     = Inr ''{"a": 1}''\<close>
  by code_simp

lemma unfenced_raises_always:
  "text \<noteq> [] \<Longrightarrow> search_fenced text = None
   \<Longrightarrow> extract_json_block text = Inl (RegexError ''unknown extension ?1 at position 13'')"
  by (simp add: extract_json_block_def search_object_def)

text \<open>
  Claim C2 says that a non-empty text never makes \<open>extract_json_block\<close> raise, that an
  object embedded in prose is returned and that a text without braces is returned
  stripped. Both texts below have no fence: the second search raises \<open>re.error\<close> and
  the function returns nothing.
\<close>

theorem unfenced_text_raises:
  \<open>extract_json_block ''hello'' = Inl (RegexError ''unknown extension ?1 at position 13'')
   \<and> extract_json_block ''Here it is: {"a": 1} as asked''
       = Inl (RegexError ''unknown extension ?1 at position 13'')\<close>
  by code_simp

text \<open>
  Claim C9. When \<open>generate_metadata\<close> raises for a newly entered title, \<open>last_title\<close>
  becomes the new title and the stored description, keywords and filter tags keep their
  values; entering the same title again requests no generation.
\<close>

theorem failed_generation_keeps_fields:
  assumes "strip title \<noteq> []"
    and "title \<noteq> last_title st"
    and "generate_metadata chat parse (strip title) = Inl err"
  shows "title_entered (generate_metadata chat parse) title st
           = ([MetadataRequested (strip title), MetadataFailed err],
              st\<lparr>last_title := title\<rparr>)
       \<and> title_entered (generate_metadata chat parse) title
            (st\<lparr>last_title := title\<rparr>)
           = ([], st\<lparr>last_title := title\<rparr>)
       \<and> state_meta_description (st\<lparr>last_title := title\<rparr>) = state_meta_description st
       \<and> state_meta_keywords (st\<lparr>last_title := title\<rparr>) = state_meta_keywords st
       \<and> generated_filter_tags (st\<lparr>last_title := title\<rparr>) = generated_filter_tags st"
  using assms by (simp add: title_entered_def)

theorem failed_generation_keeps_fields_witness:
  "title_entered (generate_metadata (\<lambda>t. Inl (OtherError ''timeout'')) (\<lambda>j. Inl (ValueError j))) ''Test Story''
     \<lparr>last_title = ''Old'', state_meta_description = ''d'', state_meta_keywords = ''k'',
      generated_filter_tags = ''t''\<rparr>
   = ([MetadataRequested ''Test Story'', MetadataFailed (OtherError ''timeout'')],
      \<lparr>last_title = ''Test Story'', state_meta_description = ''d'',
       state_meta_keywords = ''k'', generated_filter_tags = ''t''\<rparr>)"
proof -
  have s: "strip ''Test Story'' = ''Test Story''" by code_simp
  have g: "generate_metadata (\<lambda>t. Inl (OtherError ''timeout'')) (\<lambda>j. Inl (ValueError j)) (strip ''Test Story'')
             = Inl (OtherError ''timeout'')"
    by (simp add: generate_metadata_def)
  have n: "strip ''Test Story'' \<noteq> []" unfolding s by simp
  have d: "''Test Story'' \<noteq> last_title \<lparr>last_title = ''Old'', state_meta_description = ''d'',
      state_meta_keywords = ''k'', generated_filter_tags = ''t''\<rparr>" by simp
  from failed_generation_keeps_fields [OF n d g] show ?thesis by (simp add: s)
qed

section \<open>Properties of the category lookup\<close>

text \<open>
  Claim C5. The eleven category names are looked up to the integers 1 to 11, in the order
  of the select box, so to eleven distinct values; the lookup of any other name raises
  \<open>KeyError\<close>: there is no default.
\<close>

theorem category_lookup:
  "map (getitem category_mapping) category_options
     = map Inr [1, 2, 3, 4, 5, 6, 7, 8, 9, 10, 11]
   \<and> distinct (map (getitem category_mapping) category_options)
   \<and> length category_options = 11
   \<and> (name \<notin> set category_options
        \<longrightarrow> getitem category_mapping name = Inl (KeyError name))"
proof -
  have a: "map (getitem category_mapping) category_options
     = map Inr [1, 2, 3, 4, 5, 6, 7, 8, 9, 10, 11]"
    by (simp add: getitem_def category_mapping_def category_options_def)
  have b: "distinct (map (getitem category_mapping) category_options)"
    unfolding a by simp
  have c: "name \<notin> set category_options \<longrightarrow> map_of category_mapping name = None"
    by (simp add: category_mapping_def category_options_def)
  then have d: "name \<notin> set category_options
        \<longrightarrow> getitem category_mapping name = Inl (KeyError name)"
    by (simp add: getitem_def)
  from a b d show ?thesis by (simp add: category_options_def)
qed

theorem category_lookup_witness:
  "''Music'' \<notin> set category_options
   \<and> getitem category_mapping ''Music'' = Inl (KeyError ''Music'')"
proof -
  have h: "''Music'' \<notin> set category_options" by (simp add: category_options_def)
  with category_lookup [of "''Music''"] show ?thesis by simp
qed

section \<open>Properties of the fragment extraction\<close>

lemma occurs_at_length: "occurs_at s sub i \<Longrightarrow> i + length sub \<le> length s"
  by (auto simp: occurs_at_def prefix_def dest!: arg_cong [where f = length])

lemma occurs_at_drop: "occurs_at s sub i \<Longrightarrow> \<exists>rest. drop i s = sub @ rest"
  by (auto simp: occurs_at_def prefix_def)

lemma str_find_found:
  assumes "str_find s sub \<noteq> - 1"
  obtains i where "str_find s sub = int i" "occurs_at s sub i"
  using assms
  by (auto simp: str_find_def find_Some_iff split: option.splits)

lemma str_rfind_found:
  assumes "str_rfind s sub \<noteq> - 1"
  obtains i where "str_rfind s sub = int i" "occurs_at s sub i"
  using assms
  by (auto simp: str_rfind_def find_Some_iff simp del: upt_Suc split: option.splits)

lemma str_find_least:
  assumes "str_find s sub = int i" "occurs_at s sub j"
  shows "i \<le> j"
proof (rule ccontr)
  assume "\<not> i \<le> j"
  then have ji: "j < i" by simp
  from assms(1) obtain k where k: "k < length [0..<Suc (length s)]"
    "i = [0..<Suc (length s)] ! k"
    "\<forall>m<k. \<not> occurs_at s sub ([0..<Suc (length s)] ! m)"
    by (auto simp: str_find_def find_Some_iff split: option.splits)
  from k(1,2) have "i = k" by (metis length_upt nth_upt add_0 diff_zero)
  with k(1,3) ji have "\<not> occurs_at s sub ([0..<Suc (length s)] ! j)" by simp
  moreover have "[0..<Suc (length s)] ! j = j" using ji k(1) \<open>i = k\<close>
    by (metis add_0 diff_zero length_upt less_trans nth_upt)
  ultimately show False using assms(2) by simp
qed

lemma str_find_missing: "str_find s sub = - 1 \<Longrightarrow> \<not> occurs_at s sub j"
proof
  assume a: "str_find s sub = - 1" and o: "occurs_at s sub j"
  from o have "j \<le> length s" by (simp add: occurs_at_def)
  then have "j \<in> set [0..<Suc (length s)]" by (simp del: upt_Suc)
  with o have "List.find (occurs_at s sub) [0..<Suc (length s)] \<noteq> None"
    by (auto simp: find_None_iff)
  with a show False by (auto simp: str_find_def split: option.splits)
qed

lemma str_rfind_greatest:
  assumes "str_rfind s sub = int i" "occurs_at s sub j"
  shows "j \<le> i"
proof (rule ccontr)
  assume "\<not> j \<le> i"
  then have ij: "i < j" by simp
  from assms(2) have jl: "j \<le> length s" by (simp add: occurs_at_def)
  let ?xs = "rev [0..<Suc (length s)]"
  have nth: "\<And>m. m \<le> length s \<Longrightarrow> ?xs ! m = length s - m"
    by (simp add: rev_nth del: upt_Suc)
  from assms(1) obtain k where k: "k < length ?xs" "i = ?xs ! k"
    "\<forall>m<k. \<not> occurs_at s sub (?xs ! m)"
    by (auto simp: str_rfind_def find_Some_iff simp del: upt_Suc split: option.splits)
  from k(1) have kl: "k \<le> length s" by simp
  with k(2) nth have ik: "i = length s - k" by simp
  let ?m = "length s - j"
  have "?m < k" using ij ik jl kl by arith
  with k(3) have "\<not> occurs_at s sub (?xs ! ?m)" by blast
  moreover have "?xs ! ?m = j" using nth [of ?m] jl by simp
  ultimately show False using assms(2) by simp
qed

lemma slice_found:
  assumes "i \<le> length s" "j \<le> length s"
  shows "slice s (int i) (int j) = take (j - i) (drop i s)"
  using assms by (simp add: slice_def clamp_index_def Let_def)

lemma hd_drop_in_tl:
  assumes "0 < k" "k < length xs"
  shows "hd (drop k xs) \<in> set (tl xs)"
proof -
  from assms(1) obtain m where m: "k = Suc m" by (cases k) auto
  have d: "drop k xs = drop m (tl xs)" unfolding m by (simp add: drop_Suc)
  have "m < length (tl xs)" using assms(2) m by simp
  then have "drop m (tl xs) \<noteq> []" by simp
  then have "hd (drop m (tl xs)) \<in> set (drop m (tl xs))" by (rule hd_in_set)
  then show ?thesis unfolding d by (rule in_set_dropD)
qed

lemma drop_append_short: "k \<le> length xs \<Longrightarrow> drop k (xs @ ys) = drop k xs @ ys"
  by simp

lemma tags_do_not_overlap:
  assumes o: "occurs_at raw ''<amp-story-page'' i"
    and c: "occurs_at raw ''</amp-story-page>'' j"
  shows "i \<le> j \<or> j + 17 \<le> i"
proof (rule ccontr)
  assume "\<not> (i \<le> j \<or> j + 17 \<le> i)"
  then have ji: "j < i" "i < j + 17" by auto
  define k where "k = i - j"
  with ji have k: "0 < k" "k < 17" "i = j + k" by auto
  define cl where "cl = ''</amp-story-page>''"
  have len: "length cl = 17" by (simp add: cl_def)
  have nolt: "CHR ''<'' \<notin> set (tl cl)" by (simp add: cl_def)
  from occurs_at_drop [OF c] obtain rest where r: "drop j raw = cl @ rest"
    unfolding cl_def by blast
  from occurs_at_drop [OF o] obtain rest' where r': "drop i raw = ''<amp-story-page'' @ rest'"
    by blast
  have kl: "k < length cl" using k(2) len by simp
  have "drop i raw = drop k (drop j raw)" using k(3) by (simp add: add.commute)
  also have "\<dots> = drop k cl @ rest" unfolding r using kl by (simp add: drop_append_short)
  finally have e: "drop k cl @ rest = ''<amp-story-page'' @ rest'" using r' by simp
  have ne: "drop k cl \<noteq> []" using kl by simp
  then have "hd (drop k cl @ rest) = hd (drop k cl)" by simp
  with e have "hd (drop k cl) = CHR ''<''" by simp
  with hd_drop_in_tl [OF k(1) kl] nolt show False by simp
qed

lemma str_rfind_missing: "str_rfind s sub = - 1 \<Longrightarrow> \<not> occurs_at s sub j"
proof
  assume a: "str_rfind s sub = - 1" and o: "occurs_at s sub j"
  from o have "j \<le> length s" by (simp add: occurs_at_def)
  then have "j \<in> set (rev [0..<Suc (length s)])" by (simp del: upt_Suc)
  with o have "List.find (occurs_at s sub) (rev [0..<Suc (length s)]) \<noteq> None"
    by (auto simp: find_None_iff simp del: upt_Suc)
  with a show False by (auto simp: str_rfind_def split: option.splits)
qed

lemma extract_amp_story_found:
  assumes "str_find raw ''<amp-story-page'' = int i"
    and "str_rfind raw ''</amp-story-page>'' = int j"
  shows "extract_amp_story raw = (take (j + 17 - i) (drop i raw), [])"
proof -
  have o: "occurs_at raw ''<amp-story-page'' i"
    using assms(1) str_find_found [of raw "''<amp-story-page''"] by force
  have c: "occurs_at raw ''</amp-story-page>'' j"
    using assms(2) str_rfind_found [of raw "''</amp-story-page>''"] by force
  from occurs_at_length [OF o] have il: "i \<le> length raw" by simp
  from occurs_at_length [OF c] have jl: "j + 17 \<le> length raw" by simp
  have "int j + int (length ''</amp-story-page>'') = int (j + 17)" by simp
  then have "extract_amp_story raw = (slice raw (int i) (int (j + 17)), [])"
    using assms by (simp add: extract_amp_story_def Let_def)
  with slice_found [OF il jl] show ?thesis by simp
qed

text \<open>
  Claim C7, as amended. When both tag literals occur and the last closing tag begins at
  or after the first opening tag, the fragment is the text from the first
  \<open><amp-story-page\<close> (index \<open>i\<close>) to the end of the last \<open></amp-story-page>\<close> (index
  \<open>j\<close>, 17 characters): it has \<open>j + 17 - i\<close> characters, starts with the opening literal
  and ends with the closing one, and no warning is shown.
\<close>

theorem story_fragment_span:
  assumes "str_find raw ''<amp-story-page'' = int i"
    and "str_rfind raw ''</amp-story-page>'' = int j"
    and "i \<le> j"
  shows "occurs_at raw ''<amp-story-page'' i
       \<and> (\<forall>k. occurs_at raw ''<amp-story-page'' k \<longrightarrow> i \<le> k)
       \<and> occurs_at raw ''</amp-story-page>'' j
       \<and> (\<forall>k. occurs_at raw ''</amp-story-page>'' k \<longrightarrow> k \<le> j)
       \<and> extract_amp_story raw = (take (j + 17 - i) (drop i raw), [])
       \<and> length (fst (extract_amp_story raw)) = j + 17 - i
       \<and> prefix ''<amp-story-page'' (fst (extract_amp_story raw))
       \<and> suffix ''</amp-story-page>'' (fst (extract_amp_story raw))"
proof -
  let ?frag = "take (j + 17 - i) (drop i raw)"
  have o: "occurs_at raw ''<amp-story-page'' i"
    using assms(1) str_find_found [of raw "''<amp-story-page''"] by force
  have c: "occurs_at raw ''</amp-story-page>'' j"
    using assms(2) str_rfind_found [of raw "''</amp-story-page>''"] by force
  have first: "\<forall>k. occurs_at raw ''<amp-story-page'' k \<longrightarrow> i \<le> k"
    using str_find_least [OF assms(1)] by blast
  have last: "\<forall>k. occurs_at raw ''</amp-story-page>'' k \<longrightarrow> k \<le> j"
    using str_rfind_greatest [OF assms(2)] by blast
  have e: "extract_amp_story raw = (?frag, [])"
    using assms(1,2) by (rule extract_amp_story_found)
  from occurs_at_length [OF c] have jl: "j + 17 \<le> length raw" by simp
  have len: "length ?frag = j + 17 - i" using jl by simp
  from occurs_at_drop [OF o] obtain r1 where r1: "drop i raw = ''<amp-story-page'' @ r1"
    by blast
  have "15 \<le> j + 17 - i" using assms(3) by simp
  then have "take 15 ?frag = take 15 (drop i raw)" by (simp add: min_def)
  also have "\<dots> = ''<amp-story-page''" unfolding r1 by simp
  finally have p: "prefix ''<amp-story-page'' ?frag" by (metis take_is_prefix)
  from occurs_at_drop [OF c] obtain r2 where r2: "drop j raw = ''</amp-story-page>'' @ r2"
    by blast
  have "drop (j - i) ?frag = take 17 (drop j raw)"
    using assms(3) by (simp add: drop_take)
  also have "\<dots> = ''</amp-story-page>''" unfolding r2 by simp
  finally have s: "suffix ''</amp-story-page>'' ?frag" by (metis suffix_drop)
  from o first c last e len p s show ?thesis by simp
qed

theorem story_fragment_span_witness:
  "str_find ''x<amp-story-page a>p</amp-story-page>y'' ''<amp-story-page'' = int 1
   \<and> str_rfind ''x<amp-story-page a>p</amp-story-page>y'' ''</amp-story-page>'' = int 20
   \<and> (1::nat) \<le> 20
   \<and> extract_amp_story ''x<amp-story-page a>p</amp-story-page>y''
       = (''<amp-story-page a>p</amp-story-page>'', [])"
proof -
  have a: "str_find ''x<amp-story-page a>p</amp-story-page>y'' ''<amp-story-page'' = int 1"
    by code_simp
  have b: "str_rfind ''x<amp-story-page a>p</amp-story-page>y'' ''</amp-story-page>'' = int 20"
    by code_simp
  have c: "(1::nat) \<le> 20" by simp
  from a b c story_fragment_span [OF a b c] show ?thesis by simp
qed

text \<open>
  Claim C7 as stated covers every document in which both literals occur. In the document
  below the only closing tag ends before the only opening tag: both are found, and the
  fragment is empty, so it neither starts with the opening literal nor ends with the
  closing one.
\<close>

theorem story_fragment_span_counterexample:
  "str_find ''</amp-story-page>x<amp-story-page'' ''<amp-story-page'' = 18
   \<and> str_rfind ''</amp-story-page>x<amp-story-page'' ''</amp-story-page>'' = 0
   \<and> extract_amp_story ''</amp-story-page>x<amp-story-page'' = ([], [])
   \<and> \<not> prefix ''<amp-story-page'' (fst (extract_amp_story ''</amp-story-page>x<amp-story-page''))
   \<and> \<not> suffix ''</amp-story-page>'' (fst (extract_amp_story ''</amp-story-page>x<amp-story-page''))"
proof -
  have a: "str_find ''</amp-story-page>x<amp-story-page'' ''<amp-story-page'' = 18"
    by code_simp
  have b: "str_rfind ''</amp-story-page>x<amp-story-page'' ''</amp-story-page>'' = 0"
    by code_simp
  have c: "extract_amp_story ''</amp-story-page>x<amp-story-page'' = ([], [])"
    by code_simp
  from a b c show ?thesis by simp
qed

text \<open>
  Claim C10. When both literals occur and the last closing tag ends at or before the first
  opening tag, the fragment is the empty string, the warning of the missing block is not
  shown, and the insertion step leaves the template as it is and shows no warning: the
  composed document is the one the style insertion alone gives.
\<close>

theorem degenerate_span_is_silent:
  assumes "str_find raw ''<amp-story-page'' = int i"
    and "str_rfind raw ''</amp-story-page>'' = int j"
    and "j + 17 \<le> i"
  shows "extract_amp_story raw = ([], [])
       \<and> insert_amp_story template (fst (extract_amp_story raw)) = (template, [])
       \<and> splice_fragments template style (fst (extract_amp_story raw)) = insert_style template style"
proof -
  have e: "extract_amp_story raw = ([], [])"
    using extract_amp_story_found [OF assms(1,2)] assms(3) by simp
  then show ?thesis by (simp add: insert_amp_story_def splice_fragments_def Let_def)
qed

theorem degenerate_span_is_silent_witness:
  "str_find ''</amp-story-page><amp-story-page>'' ''<amp-story-page'' = int 17
   \<and> str_rfind ''</amp-story-page><amp-story-page>'' ''</amp-story-page>'' = int 0
   \<and> (0::nat) + 17 \<le> 17
   \<and> extract_amp_story ''</amp-story-page><amp-story-page>'' = ([], [])
   \<and> insert_amp_story ''<amp-story standalone>'' (fst (extract_amp_story ''</amp-story-page><amp-story-page>''))
       = (''<amp-story standalone>'', [])"
proof -
  have a: "str_find ''</amp-story-page><amp-story-page>'' ''<amp-story-page'' = int 17"
    by code_simp
  have b: "str_rfind ''</amp-story-page><amp-story-page>'' ''</amp-story-page>'' = int 0"
    by code_simp
  have c: "(0::nat) + 17 \<le> 17" by simp
  note d = degenerate_span_is_silent [OF a b c, of "''<amp-story standalone>''" "[]"]
  from d have e: "extract_amp_story ''</amp-story-page><amp-story-page>'' = ([], [])"
    by (rule conjunct1)
  from d have i: "insert_amp_story ''<amp-story standalone>''
      (fst (extract_amp_story ''</amp-story-page><amp-story-page>''))
       = (''<amp-story standalone>'', [])"
    by (rule conjunct1 [OF conjunct2])
  from a b c e i show ?thesis by (intro conjI)
qed

section \<open>Properties of the submit handler\<close>

lemma publish_published:
  assumes "publish e f idn h md = (evs, Published p)"
  shows "p = \<lparr>html = h, metadata = md,
               archive = [(slug_nano idn @ ''.html'', h),
                          (slug_nano idn @ ''_metadata.json'', json_dumps e md)]\<rparr>
       \<and> evs = [PutObject ''suvichaarstories'' (slug_nano idn @ ''.html'') h ''text/html'',
                HtmlUploaded (''https://suvichaar.org/stories/'' @ slug_nano idn),
                DownloadButton (story_title f @ ''.zip'') (archive p)]"
  using assms by (auto simp: publish_def Let_def split: option.splits)

lemma compose_published:
  assumes "compose_phase e f idn = (evs, Published p)"
  shows "\<exists>n. getitem category_mapping (categories f) = Inr n
           \<and> metadata p = metadata_dict f idn n
           \<and> archive p = [(slug_nano idn @ ''.html'', html p),
                          (slug_nano idn @ ''_metadata.json'', json_dumps e (metadata p))]
           \<and> DownloadButton (story_title f @ ''.zip'') (archive p) \<in> set evs
           \<and> PutObject ''suvichaarstories'' (slug_nano idn @ ''.html'') (html p) ''text/html''
                \<in> set evs"
proof -
  from assms obtain t n filled st sy ev where
    n: "getitem category_mapping (categories f) = Inr n"
    and pb: "snd (publish e f idn (fst (splice_fragments (cleanup filled) st sy))
                (metadata_dict f idn n)) = Published p"
    and evs: "evs = ReadTemplate ''templates/masterregex.html'' # ev
                @ snd (splice_fragments (cleanup filled) st sy)
                @ fst (publish e f idn (fst (splice_fragments (cleanup filled) st sy))
                        (metadata_dict f idn n))"
    by (auto simp: compose_phase_def Let_def split: sum.splits prod.splits)
  let ?h = "fst (splice_fragments (cleanup filled) st sy)"
  let ?pb = "publish e f idn ?h (metadata_dict f idn n)"
  have "?pb = (fst ?pb, Published p)" using pb by (metis prod.collapse)
  from publish_published [OF this] n evs show ?thesis by auto
qed

text \<open>
  Every run that reaches the download button: the archive has exactly two entries, named
  after the value of \<open>slug_nano\<close> with \<open>.html\<close> and \<open>_metadata.json\<close> (the composed document
  and the serialised metadata); the metadata record has exactly the thirteen keys below,
  with the integer of the chosen category under \<open>categories\<close>, a list of strings under
  \<open>filterTags\<close>, the constant 1 under \<open>publisher_id\<close> and the constant logo URL under
  \<open>story_logo_link\<close>.
\<close>

lemma archive_and_metadata:
  assumes "on_submit e f = (evs, Published p)"
  shows "map fst (archive p)
           = [slug_nano (snd (ident_phase e f)) @ ''.html'',
              slug_nano (snd (ident_phase e f)) @ ''_metadata.json'']
       \<and> map snd (archive p) = [html p, json_dumps e (metadata p)]
       \<and> DownloadButton (story_title f @ ''.zip'') (archive p) \<in> set evs
       \<and> map fst (metadata p)
           = [''story_title'', ''categories'', ''filterTags'', ''story_uid'', ''story_link'',
              ''storyhtmlurl'', ''urlslug'', ''cover_image_link'', ''publisher_id'',
              ''story_logo_link'', ''keywords'', ''metadescription'', ''lang'']
       \<and> (\<exists>n. getitem category_mapping (categories f) = Inr n
              \<and> map_of (metadata p) ''categories'' = Some (JInt n))
       \<and> map_of (metadata p) ''filterTags'' = Some (JList (filter_tags_list (tag_input f)))
       \<and> map_of (metadata p) ''publisher_id'' = Some (JInt 1)
       \<and> map_of (metadata p) ''story_logo_link''
           = Some (JString ''https://media.suvichaar.org/filters:resize/96x96/media/brandasset/suvichaariconblack.png'')"
proof -
  define ev where "ev = fst (compose_phase e f (snd (ident_phase e f)))"
  from assms obtain img where
    s: "snd (compose_phase e f (snd (ident_phase e f))) = Published p"
    and es: "evs = validation f @ fst (ident_phase e f) @ img @ ev"
    unfolding ev_def
    by (auto simp: on_submit_def Let_def split: sum.splits prod.splits)
  have c: "compose_phase e f (snd (ident_phase e f)) = (ev, Published p)"
    unfolding ev_def using s by (metis prod.collapse)
  have sub: "set ev \<subseteq> set evs" unfolding es by auto
  from compose_published [OF c] obtain n where
    n: "getitem category_mapping (categories f) = Inr n"
    and m: "metadata p = metadata_dict f (snd (ident_phase e f)) n"
    and a: "archive p = [(slug_nano (snd (ident_phase e f)) @ ''.html'', html p),
          (slug_nano (snd (ident_phase e f)) @ ''_metadata.json'', json_dumps e (metadata p))]"
    and d: "DownloadButton (story_title f @ ''.zip'') (archive p) \<in> set ev"
    by blast
  have 1: "map fst (archive p)
           = [slug_nano (snd (ident_phase e f)) @ ''.html'',
              slug_nano (snd (ident_phase e f)) @ ''_metadata.json'']"
    unfolding a by simp
  have 2: "map snd (archive p) = [html p, json_dumps e (metadata p)]"
    unfolding a by simp
  have 3: "DownloadButton (story_title f @ ''.zip'') (archive p) \<in> set evs"
    using d sub by blast
  have 4: "map fst (metadata p)
           = [''story_title'', ''categories'', ''filterTags'', ''story_uid'', ''story_link'',
              ''storyhtmlurl'', ''urlslug'', ''cover_image_link'', ''publisher_id'',
              ''story_logo_link'', ''keywords'', ''metadescription'', ''lang'']"
    unfolding m by (simp add: metadata_dict_def)
  have 5: "\<exists>n. getitem category_mapping (categories f) = Inr n
              \<and> map_of (metadata p) ''categories'' = Some (JInt n)"
    unfolding m n by (simp add: metadata_dict_def)
  have 6: "map_of (metadata p) ''filterTags'' = Some (JList (filter_tags_list (tag_input f)))"
    unfolding m by (simp add: metadata_dict_def)
  have 7: "map_of (metadata p) ''publisher_id'' = Some (JInt 1)"
    unfolding m by (simp add: metadata_dict_def)
  have 8: "map_of (metadata p) ''story_logo_link''
           = Some (JString ''https://media.suvichaar.org/filters:resize/96x96/media/brandasset/suvichaariconblack.png'')"
    unfolding m by (simp add: metadata_dict_def)
  from 1 2 3 4 5 6 7 8 show ?thesis by (intro conjI)
qed

lemma archive_and_metadata_example:
  "let e = \<lparr>rng = id,
      urlparse_path = (\<lambda>u. Inr ''/c.PNG''),
      requests_get = (\<lambda>u. Inr (''PNG'', Some ''image/png'')),
      uuid4_hex = ''0123'',
      put_object = (\<lambda>b k body c. None),
      read_template = Inr ''<head>{{lang}}</head><amp-story>'',
      random_choice = 0,
      utc_now = (\<lambda>i. ''2025-01-01T00:00:00+00:00''),
      b64_descriptor = (\<lambda>b k w h. ''e30=''),
      json_dumps = (\<lambda>m. ''{}''),
      bucket_name = ''media-bucket'',
      s3_prefix = ''media'',
      cdn_base_url = ''https://cdn.example.com/''\<rparr>;
       f = \<lparr>story_title = ''Test Story'',
      meta_description = ''A test'',
      meta_keywords = ''test, story'',
      content_type = ''News'',
      language = ''hi'',
      image_url = ''http://x.org/c.PNG'',
      html_file = Some (Inr ''<style amp-custom></style>''),
      categories = ''Travel'',
      tag_input = ''music, culture'',
      use_custom_cover = ''No'',
      custom_cover_image_url = []\<rparr>;
       h = ''<head>hi'' @ [CHR 0x0A] @ ''<style amp-custom></style>'' @ [CHR 0x0A] @ ''</head><amp-story>'';
       p = \<lparr>html = h,
            metadata = metadata_dict f (snd (ident_phase e f)) 2,
            archive = [(''test-story_abcdefghij_G.html'', h),
                       (''test-story_abcdefghij_G_metadata.json'', ''{}'')]\<rparr>
   in on_submit e f = (fst (on_submit e f), Published p)
      \<and> map fst (archive p)
          = [''test-story_abcdefghij_G.html'', ''test-story_abcdefghij_G_metadata.json'']
      \<and> map_of (metadata p) ''categories'' = Some (JInt 2)
      \<and> getitem category_mapping (categories f) = Inr 2"
proof -
  let ?e = "\<lparr>rng = id,
      urlparse_path = (\<lambda>u. Inr ''/c.PNG''),
      requests_get = (\<lambda>u. Inr (''PNG'', Some ''image/png'')),
      uuid4_hex = ''0123'',
      put_object = (\<lambda>b k body c. None),
      read_template = Inr ''<head>{{lang}}</head><amp-story>'',
      random_choice = 0,
      utc_now = (\<lambda>i. ''2025-01-01T00:00:00+00:00''),
      b64_descriptor = (\<lambda>b k w h. ''e30=''),
      json_dumps = (\<lambda>m. ''{}''),
      bucket_name = ''media-bucket'',
      s3_prefix = ''media'',
      cdn_base_url = ''https://cdn.example.com/''\<rparr>"
  let ?f = "\<lparr>story_title = ''Test Story'',
      meta_description = ''A test'',
      meta_keywords = ''test, story'',
      content_type = ''News'',
      language = ''hi'',
      image_url = ''http://x.org/c.PNG'',
      html_file = Some (Inr ''<style amp-custom></style>''),
      categories = ''Travel'',
      tag_input = ''music, culture'',
      use_custom_cover = ''No'',
      custom_cover_image_url = []\<rparr>"
  let ?h = "''<head>hi'' @ [CHR 0x0A] @ ''<style amp-custom></style>'' @ [CHR 0x0A] @ ''</head><amp-story>''"
  let ?p = "\<lparr>html = ?h,
            metadata = metadata_dict ?f (snd (ident_phase ?e ?f)) 2,
            archive = [(''test-story_abcdefghij_G.html'', ?h),
                       (''test-story_abcdefghij_G_metadata.json'', ''{}'')]\<rparr>"
  have s: "snd (on_submit ?e ?f) = Published ?p"
    by code_simp
  have h: "on_submit ?e ?f = (fst (on_submit ?e ?f), Published ?p)"
    using s by (metis prod.collapse)
  have g: "getitem category_mapping (categories ?f) = Inr 2"
    by (simp add: getitem_def category_mapping_def)
  note t = archive_and_metadata [OF h]
  from t have a: "map fst (archive ?p)
      = [slug_nano (snd (ident_phase ?e ?f)) @ ''.html'',
         slug_nano (snd (ident_phase ?e ?f)) @ ''_metadata.json'']"
    by (rule conjunct1)
  have sn: "slug_nano (snd (ident_phase ?e ?f)) = ''test-story_abcdefghij_G''"
    by code_simp
  have a': "map fst (archive ?p)
          = [''test-story_abcdefghij_G.html'', ''test-story_abcdefghij_G_metadata.json'']"
    using a unfolding sn by simp
  from t have "\<exists>n. getitem category_mapping (categories ?f) = Inr n
              \<and> map_of (metadata ?p) ''categories'' = Some (JInt n)"
    by (elim conjE) assumption
  then obtain n where n: "getitem category_mapping (categories ?f) = Inr n"
    and c: "map_of (metadata ?p) ''categories'' = Some (JInt n)"
    by (elim exE conjE)
  from n g have "n = 2" by (simp only: sum.inject)
  with c have c': "map_of (metadata ?p) ''categories'' = Some (JInt 2)"
    by (simp only:)
  from h a' c' g show ?thesis unfolding Let_def by (intro conjI)
qed

lemma ident_phase_title:
  assumes "story_title f \<noteq> []"
  shows "slug_nano (snd (ident_phase e f)) = slug_of (story_title f) @ ''_'' @ nano_of (rng e)"
  using assms by (simp add: ident_phase_def generate_slug_and_urls_def Let_def)

lemma ident_phase_empty_title:
  assumes "story_title f = []"
  shows "slug_nano (snd (ident_phase e f)) = []"
  using assms by (simp add: ident_phase_def generate_slug_and_urls_def)

text \<open>
  For a title that is not empty, the two entries are named after the composite identifier:
  the slug, an underscore and the suffix.
\<close>

lemma archive_named_after_composite:
  assumes "on_submit e f = (evs, Published p)" and "story_title f \<noteq> []"
  shows "map fst (archive p)
           = [slug_of (story_title f) @ ''_'' @ nano_of (rng e) @ ''.html'',
              slug_of (story_title f) @ ''_'' @ nano_of (rng e) @ ''_metadata.json'']"
proof -
  from archive_and_metadata [OF assms(1)]
  have "map fst (archive p)
           = [slug_nano (snd (ident_phase e f)) @ ''.html'',
              slug_nano (snd (ident_phase e f)) @ ''_metadata.json'']"
    by (rule conjunct1)
  then show ?thesis unfolding ident_phase_title [OF assms(2)] by simp
qed

text \<open>
  The handler does not stop when the validation finds missing fields. With an empty
  title \<open>generate_slug_and_urls\<close> raises, the handler sets the five identifier values
  to the empty string and goes on: every run that then reaches the download button
  offers an archive whose entries are named \<open>.html\<close> and \<open>_metadata.json\<close>.
\<close>

lemma empty_title_archive_names:
  assumes "on_submit e f = (evs, Published p)" and "story_title f = []"
  shows "map fst (archive p) = [''.html'', ''_metadata.json'']"
proof -
  from archive_and_metadata [OF assms(1)]
  have "map fst (archive p)
           = [slug_nano (snd (ident_phase e f)) @ ''.html'',
              slug_nano (snd (ident_phase e f)) @ ''_metadata.json'']"
    by (rule conjunct1)
  then show ?thesis unfolding ident_phase_empty_title [OF assms(2)] by simp
qed

text \<open>
  Claim C8 names the two entries of the archive after the composite identifier, the slug,
  an underscore and the suffix. The submission below has an empty title and every other
  field filled: the missing title is reported, and the run still stores the document
  under the key \<open>.html\<close> and offers an archive with the entries \<open>.html\<close> and
  \<open>_metadata.json\<close>; the identifiers in the metadata record are empty.
\<close>

theorem empty_title_still_publishes:
  "on_submit
     \<lparr>rng = id,
      urlparse_path = (\<lambda>u. Inr ''/c.PNG''),
      requests_get = (\<lambda>u. Inr (''PNG'', Some ''image/png'')),
      uuid4_hex = ''0123'',
      put_object = (\<lambda>b k body c. None),
      read_template = Inr ''<head>{{lang}}</head><amp-story>'',
      random_choice = 0,
      utc_now = (\<lambda>i. ''2025-01-01T00:00:00+00:00''),
      b64_descriptor = (\<lambda>b k w h. ''e30=''),
      json_dumps = (\<lambda>m. ''{}''),
      bucket_name = ''media-bucket'',
      s3_prefix = ''media'',
      cdn_base_url = ''https://cdn.example.com/''\<rparr>
     \<lparr>story_title = [],
      meta_description = ''A test'',
      meta_keywords = ''test, story'',
      content_type = ''News'',
      language = ''hi'',
      image_url = ''http://x.org/c.PNG'',
      html_file = Some (Inr ''<style amp-custom></style>''),
      categories = ''Travel'',
      tag_input = ''music, culture'',
      use_custom_cover = ''No'',
      custom_cover_image_url = []\<rparr>
   = ([MissingFieldsError [''Story Title''],
       CanonicalUrlError (ValueError ''Invalid title''),
       HttpGet ''http://x.org/c.PNG'',
       PutObject ''media-bucket'' ''media/0123.png'' ''PNG'' ''image/png'',
       ImageUploaded,
       ReadTemplate ''templates/masterregex.html'',
       NoStoryBlock,
       PutObject ''suvichaarstories'' ''.html'' (''<head>hi'' @ [CHR 0x0A] @ ''<style amp-custom></style>'' @ [CHR 0x0A] @ ''</head><amp-story>'') ''text/html'',
       HtmlUploaded ''https://suvichaar.org/stories/'',
       DownloadButton ''.zip'' [(''.html'', (''<head>hi'' @ [CHR 0x0A] @ ''<style amp-custom></style>'' @ [CHR 0x0A] @ ''</head><amp-story>'')), (''_metadata.json'', ''{}'')]],
      Published
        \<lparr>html = (''<head>hi'' @ [CHR 0x0A] @ ''<style amp-custom></style>'' @ [CHR 0x0A] @ ''</head><amp-story>''),
         metadata = metadata_dict \<lparr>story_title = [],
      meta_description = ''A test'',
      meta_keywords = ''test, story'',
      content_type = ''News'',
      language = ''hi'',
      image_url = ''http://x.org/c.PNG'',
      html_file = Some (Inr ''<style amp-custom></style>''),
      categories = ''Travel'',
      tag_input = ''music, culture'',
      use_custom_cover = ''No'',
      custom_cover_image_url = []\<rparr>
           \<lparr>nano = [], slug_nano = [], canurl = [], canurl1 = [], page_title = []\<rparr> 2,
         archive = [(''.html'', (''<head>hi'' @ [CHR 0x0A] @ ''<style amp-custom></style>'' @ [CHR 0x0A] @ ''</head><amp-story>'')), (''_metadata.json'', ''{}'')]\<rparr>)"
  by code_simp

lemma strip_empty: "strip [] = []"
  by (simp add: strip_def)

text \<open>
  The processing after the validation block does not depend on what the validation
  found. With a blank image URL, a readable template, a known category, an uploaded
  file and a store that accepts the document, the missing field is reported and the
  document is stored all the same.
\<close>

lemma validation_does_not_gate:
  assumes img: "image_url f = []"
    and tmpl: "read_template e = Inr t"
    and cat: "getitem category_mapping (categories f) = Inr n"
    and upl: "html_file f = Some (Inr raw)"
    and put: "\<And>k b. put_object e ''suvichaarstories'' k b ''text/html'' = None"
  shows "\<exists>evs p. on_submit e f = (evs, Published p)
           \<and> ''Image URL'' \<in> set (missing_fields f)
           \<and> MissingFieldsError (missing_fields f) \<in> set evs
           \<and> PutObject ''suvichaarstories'' (slug_nano (snd (ident_phase e f)) @ ''.html'')
                 (html p) ''text/html'' \<in> set evs"
proof -
  have m: "''Image URL'' \<in> set (missing_fields f)"
    using img by (simp add: missing_fields_def strip_empty)
  then have v: "validation f = [MissingFieldsError (missing_fields f)]"
    by (auto simp: validation_def)
  have i: "image_phase e f = Inr [NoImageUrl]"
    using img by (simp add: image_phase_def)
  have fi: "\<And>h. fill_images e f h = Inr h"
    using img by (simp add: fill_images_def)
  have ex: "extract_fragments (html_file f)
      = Inr (fst (extract_style raw), fst (extract_amp_story raw),
             snd (extract_style raw) @ snd (extract_amp_story raw))"
    using upl by (simp add: extract_fragments_def)
  define idn where "idn = snd (ident_phase e f)"
  define h where "h = fst (splice_fragments (cleanup (fill_placeholders e f idn t))
      (fst (extract_style raw)) (fst (extract_amp_story raw)))"
  define p where "p = \<lparr>html = h, metadata = metadata_dict f idn n,
      archive = [(slug_nano idn @ ''.html'', h),
        (slug_nano idn @ ''_metadata.json'', json_dumps e (metadata_dict f idn n))]\<rparr>"
  have pb: "publish e f idn h (metadata_dict f idn n)
      = ([PutObject ''suvichaarstories'' (slug_nano idn @ ''.html'') h ''text/html'',
          HtmlUploaded (''https://suvichaar.org/stories/'' @ slug_nano idn),
          DownloadButton (story_title f @ ''.zip'') (archive p)], Published p)"
    by (simp add: publish_def Let_def put p_def)
  have cp: "snd (compose_phase e f idn) = Published p"
    "PutObject ''suvichaarstories'' (slug_nano idn @ ''.html'') h ''text/html''
       \<in> set (fst (compose_phase e f idn))"
    by (simp_all add: compose_phase_def tmpl cat fi ex Let_def h_def [symmetric] pb)
  have hp: "html p = h" by (simp add: p_def)
  have os: "on_submit e f
      = (validation f @ fst (ident_phase e f) @ [NoImageUrl] @ fst (compose_phase e f idn),
         Published p)"
    using cp(1) by (simp add: on_submit_def Let_def i idn_def)
  show ?thesis
    using m cp(2) unfolding os v hp [symmetric] idn_def by auto
qed

text \<open>
  Claim C1 says that a submission with a missing required field is rejected before any
  side effect. The submission below has a blank image URL and every other field filled:
  \<open>Image URL\<close> is listed as missing, and the run still generates the identifiers, reads
  the template, composes the document, stores it under \<open>suvichaarstories\<close> and offers the
  archive.
\<close>

theorem blank_image_url_still_publishes:
  "fst (on_submit
     \<lparr>rng = id,
      urlparse_path = (\<lambda>u. Inr ''/c.PNG''),
      requests_get = (\<lambda>u. Inr (''PNG'', Some ''image/png'')),
      uuid4_hex = ''0123'',
      put_object = (\<lambda>b k body c. None),
      read_template = Inr ''<head>{{lang}}</head><amp-story>'',
      random_choice = 0,
      utc_now = (\<lambda>i. ''2025-01-01T00:00:00+00:00''),
      b64_descriptor = (\<lambda>b k w h. ''e30=''),
      json_dumps = (\<lambda>m. ''{}''),
      bucket_name = ''media-bucket'',
      s3_prefix = ''media'',
      cdn_base_url = ''https://cdn.example.com/''\<rparr>
     \<lparr>story_title = ''Test Story'',
      meta_description = ''A test'',
      meta_keywords = ''test, story'',
      content_type = ''News'',
      language = ''hi'',
      image_url = [],
      html_file = Some (Inr ''<style amp-custom></style>''),
      categories = ''Travel'',
      tag_input = ''music, culture'',
      use_custom_cover = ''No'',
      custom_cover_image_url = []\<rparr>)
   = [MissingFieldsError [''Image URL''],
      NoImageUrl,
      ReadTemplate ''templates/masterregex.html'',
      NoStoryBlock,
      PutObject ''suvichaarstories'' ''test-story_abcdefghij_G.html'' (''<head>hi'' @ [CHR 0x0A] @ ''<style amp-custom></style>'' @ [CHR 0x0A] @ ''</head><amp-story>'') ''text/html'',
      HtmlUploaded ''https://suvichaar.org/stories/test-story_abcdefghij_G'',
      DownloadButton ''Test Story.zip''
        [(''test-story_abcdefghij_G.html'', (''<head>hi'' @ [CHR 0x0A] @ ''<style amp-custom></style>'' @ [CHR 0x0A] @ ''</head><amp-story>'')),
         (''test-story_abcdefghij_G_metadata.json'', ''{}'')]]"
  by code_simp

section \<open>Properties of the URL cleanup\<close>





















end
